theory Spec2Isabelle
  imports Complex_Main "HOL-Library.Word"
begin

section \<open>The component store of src/main.cpp\<close>

text \<open>
  \<^verbatim>\<open>Entity::IDType\<close> is \<^verbatim>\<open>std::uint32_t\<close>. A record of a collection is a
  \<^verbatim>\<open>std::pair<Entity::IDType, Component>\<close>, a collection a \<^verbatim>\<open>std::vector\<close> of such pairs.
\<close>

type_synonym IDType = "32 word"

type_synonym 'c EntityComponentPair = "IDType \<times> 'c"

type_synonym 'c EntityComponentList = "'c EntityComponentPair list"

text \<open>
  \<^verbatim>\<open>ECS::get<Component>()\<close> holds one function-local static vector per template
  instantiation. The process state is therefore one collection per component type: a
  function from the identity of the component type (\<open>'ty\<close>) to that type's vector.
  The component values of all types live in one value type \<open>'c\<close>.
\<close>

type_synonym ('ty, 'c) ecs = "'ty \<Rightarrow> 'c EntityComponentList"

text \<open>
  Every static vector is value-initialised (\<^verbatim>\<open>instance{}\<close>): the program starts empty.
  A vector is a list of any length: running out of memory in \<^verbatim>\<open>emplace_back\<close>, which
  would end the program (the functions are \<^verbatim>\<open>noexcept\<close>), is outside the model.
\<close>

definition initial :: "('ty, 'c) ecs" where
  "initial = (\<lambda>T. [])"

definition get :: "'ty \<Rightarrow> ('ty, 'c) ecs \<Rightarrow> 'c EntityComponentList" where
  "get T s = s T"

definition matchEntity :: "IDType \<Rightarrow> 'c EntityComponentPair \<Rightarrow> bool" where
  "matchEntity entityID pair = (fst pair = entityID)"

subsection \<open>The library algorithms the store calls\<close>

text \<open>
  Iterators into a vector are positions: \<open>0\<close> is \<^verbatim>\<open>begin()\<close> and the length is
  \<^verbatim>\<open>end()\<close>. \<^verbatim>\<open>std::ranges::find_if\<close> returns the position of the first element that
  satisfies the predicate, and \<^verbatim>\<open>end()\<close> when there is none.
\<close>

primrec find_if :: "('a \<Rightarrow> bool) \<Rightarrow> 'a list \<Rightarrow> nat" where
  "find_if p [] = 0"
| "find_if p (x # xs) = (if p x then 0 else Suc (find_if p xs))"

definition end_of :: "'a list \<Rightarrow> nat" where
  "end_of xs = length xs"

text \<open>
  \<^verbatim>\<open>std::erase_if(vector, pred)\<close> erases every element that satisfies the predicate.
  The C++ standard defines it as \<^verbatim>\<open>remove_if\<close> followed by \<^verbatim>\<open>erase\<close> of the tail,
  and requires \<^verbatim>\<open>remove_if\<close> to be stable: the elements that stay keep their order.
\<close>

primrec erase_if :: "('a \<Rightarrow> bool) \<Rightarrow> 'a list \<Rightarrow> 'a list" where
  "erase_if p [] = []"
| "erase_if p (x # xs) = (if p x then erase_if p xs else x # erase_if p xs)"

subsection \<open>The operations of class ECS\<close>

definition addComponentToEntity ::
  "'ty \<Rightarrow> IDType \<Rightarrow> 'c \<Rightarrow> ('ty, 'c) ecs \<Rightarrow> ('ty, 'c) ecs" where
  "addComponentToEntity T entityID component s =
     (let components = get T s in
      if find_if (matchEntity entityID) components = end_of components
      then s(T := components @ [(entityID, component)])
      else s)"

definition removeComponentFromEntity ::
  "'ty \<Rightarrow> IDType \<Rightarrow> ('ty, 'c) ecs \<Rightarrow> ('ty, 'c) ecs" where
  "removeComponentFromEntity T entityID s =
     s(T := erase_if (matchEntity entityID) (get T s))"

definition entityHasComponent :: "'ty \<Rightarrow> IDType \<Rightarrow> ('ty, 'c) ecs \<Rightarrow> bool" where
  "entityHasComponent T entityID s =
     (let components = get T s in
      find_if (matchEntity entityID) components \<noteq> end_of components)"

text \<open>
  \<^verbatim>\<open>getComponentOfEntity\<close> returns \<^verbatim>\<open>std::optional<Component*>\<close>. The pointer
  \<^verbatim>\<open>&it->second\<close> is the position of the record in the vector of its type; \<open>pointee\<close>
  reads the component it points to in a given state.
\<close>

definition getComponentOfEntity :: "'ty \<Rightarrow> IDType \<Rightarrow> ('ty, 'c) ecs \<Rightarrow> nat option" where
  "getComponentOfEntity T entityID s =
     (let components = get T s; it = find_if (matchEntity entityID) components in
      if it \<noteq> end_of components then Some it else None)"

definition pointee :: "'ty \<Rightarrow> ('ty, 'c) ecs \<Rightarrow> nat option \<Rightarrow> 'c option" where
  "pointee T s r = map_option (\<lambda>it. snd (get T s ! it)) r"

definition getComponentsView :: "'ty \<Rightarrow> ('ty, 'c) ecs \<Rightarrow> nat list" where
  "getComponentsView T s = [0 ..< length (get T s)]"

definition getEntityIDsWithComponentView :: "'ty \<Rightarrow> ('ty, 'c) ecs \<Rightarrow> IDType list" where
  "getEntityIDsWithComponentView T s = map fst (get T s)"

text \<open>
  A system is a default-constructible callable with a \<^verbatim>\<open>ComponentType\<close>
  (\<^verbatim>\<open>SystemConcept\<close>). Its call operator is \<^verbatim>\<open>noexcept\<close>; it receives a reference to
  the component, \<^verbatim>\<open>it->second\<close>, and the forwarded extra arguments (here one value of
  type \<open>'a\<close>). Nothing more is required of it: it may write the component, write through
  a forwarded argument, and call the public static members of \<^verbatim>\<open>ECS\<close>. So \<open>call\<close>
  takes the position the reference addresses, the arguments and the store, and returns
  the arguments and the store it leaves behind. A call operator that does not return is
  outside the model.
\<close>

record ('ty, 'c, 'a) System =
  ComponentType :: 'ty
  call :: "nat \<Rightarrow> 'a \<Rightarrow> ('ty, 'c) ecs \<Rightarrow> 'a \<times> ('ty, 'c) ecs"

definition applySystem ::
  "('ty, 'c, 'a) System \<Rightarrow> IDType \<Rightarrow> 'a \<Rightarrow> ('ty, 'c) ecs \<Rightarrow> 'a \<times> ('ty, 'c) ecs" where
  "applySystem S entityID args s =
     (let components = get (ComponentType S) s;
          it = find_if (matchEntity entityID) components in
      if it \<noteq> end_of components
      then call S it args s
      else (args, s))"

text \<open>
  The systems of \<^verbatim>\<open>main.cpp\<close> do less than the concept allows: their call operators
  read and write the component they are handed and nothing else. \<open>componentSystem T f\<close>
  is the system of component type \<open>T\<close> whose call operator replaces the component by
  \<open>f\<close> of it and of the arguments; the entity identifier beside it stays.
\<close>

definition componentSystem :: "'ty \<Rightarrow> ('c \<Rightarrow> 'a \<Rightarrow> 'c) \<Rightarrow> ('ty, 'c, 'a) System" where
  "componentSystem T f =
     \<lparr>ComponentType = T,
      call = (\<lambda>it args s.
        (args, s(T := (get T s)[it := (fst (get T s ! it), f (snd (get T s ! it)) args)])))\<rparr>"

text \<open>
  A system that the concept accepts and that does more: its call operator leaves its
  component alone and calls \<^verbatim>\<open>ECS::addComponentToEntity\<close> for an entity \<open>e'\<close> with a
  component \<open>c'\<close> of type \<open>T'\<close>.
  \<^verbatim>\<open>
  struct InsertingSystem {
      using ComponentType = T;
      void operator()(T&, float) const noexcept { ECS::addComponentToEntity(e', T'{c'}); }
  };
  \<close>
\<close>

definition insertingSystem :: "'ty \<Rightarrow> 'ty \<Rightarrow> IDType \<Rightarrow> 'c \<Rightarrow> ('ty, 'c, 'a) System" where
  "insertingSystem T T' e' c' =
     \<lparr>ComponentType = T,
      call = (\<lambda>it args s. (args, addComponentToEntity T' e' c' s))\<rparr>"

subsection \<open>The component and the systems of main.cpp\<close>

text \<open>
  \<^verbatim>\<open>Position\<close> has two \<^verbatim>\<open>float\<close> fields. A float is the real number it denotes, and
  a float operation is the exact operation followed by rounding to a float: the rounding
  \<open>rnd\<close> is a parameter of the systems. A literal such as \<^verbatim>\<open>9.81f\<close> is the rounded
  decimal; \<^verbatim>\<open>1.0f\<close> is exact. The identity of the type \<^verbatim>\<open>Position\<close> is its name.
\<close>

record Position =
  x :: real
  y :: real

definition MoveSystem :: "(real \<Rightarrow> real) \<Rightarrow> (string, Position, real) System" where
  "MoveSystem rnd =
     componentSystem ''Position''
       (\<lambda>position dt.
          (position\<lparr>x := rnd (x position + rnd (1 * dt))\<rparr>)
            \<lparr>y := rnd (y position + rnd (1 * dt))\<rparr>)"

definition GravitySystem :: "(real \<Rightarrow> real) \<Rightarrow> (string, Position, real) System" where
  "GravitySystem rnd =
     componentSystem ''Position''
       (\<lambda>position dt. position\<lparr>y := rnd (y position - rnd (rnd (981 / 100) * dt))\<rparr>)"

subsection \<open>Sequences of calls\<close>




text \<open>The calls \<^verbatim>\<open>addComponentToEntity(e, c)\<close> for each pair of a list, in its order.\<close>

definition addAll :: "'ty \<Rightarrow> 'c EntityComponentPair list \<Rightarrow> ('ty, 'c) ecs \<Rightarrow> ('ty, 'c) ecs" where
  "addAll T ps s = foldl (\<lambda>s' p. addComponentToEntity T (fst p) (snd p) s') s ps"

section \<open>Facts about the library algorithms\<close>

lemma find_if_le_length: "find_if p xs \<le> length xs"
  by (induction xs) auto

lemma find_if_end_iff: "find_if p xs = length xs \<longleftrightarrow> (\<forall>a \<in> set xs. \<not> p a)"
proof (induction xs)
  case Nil
  show ?case by simp
next
  case (Cons a xs)
  show ?case using Cons.IH by auto
qed

lemma find_if_found: "find_if p xs < length xs \<Longrightarrow> p (xs ! find_if p xs)"
  by (induction xs) auto

lemma erase_if_filter: "erase_if p xs = filter (\<lambda>a. \<not> p a) xs"
  by (induction xs) auto

lemma match_keys: "(\<forall>a \<in> set xs. \<not> matchEntity e a) \<longleftrightarrow> e \<notin> set (map fst xs)"
  by (auto simp: matchEntity_def)

lemma find_if_match_end: "find_if (matchEntity e) xs = length xs \<longleftrightarrow> e \<notin> set (map fst xs)"
  using find_if_end_iff [of "matchEntity e" xs] match_keys [of xs e] by simp

lemma find_if_append_new:
  "e \<notin> set (map fst xs) \<Longrightarrow> find_if (matchEntity e) (xs @ (e, c) # ys) = length xs"
  by (induction xs) (auto simp: matchEntity_def)

section \<open>Facts about the operations\<close>

lemma get_upd_same: "get T (s(T := xs)) = xs"
  by (simp add: get_def)

lemma get_upd_other: "T' \<noteq> T \<Longrightarrow> get T' (s(T := xs)) = get T' s"
  by (simp add: get_def)

lemma upd_get_same: "s(T := get T s) = s"
  by (simp add: get_def)

lemma has_iff_key: "entityHasComponent T e s \<longleftrightarrow> e \<in> set (map fst (get T s))"
  unfolding entityHasComponent_def Let_def end_of_def
  using find_if_match_end [of e "get T s"] by blast

lemma add_absent:
  "e \<notin> set (map fst (get T s)) \<Longrightarrow>
   addComponentToEntity T e c s = s(T := get T s @ [(e, c)])"
  unfolding addComponentToEntity_def Let_def end_of_def
  using find_if_match_end [of e "get T s"] by simp

lemma add_present:
  "e \<in> set (map fst (get T s)) \<Longrightarrow> addComponentToEntity T e c s = s"
  unfolding addComponentToEntity_def Let_def end_of_def
  using find_if_match_end [of e "get T s"] by simp

lemma get_remove:
  "get T (removeComponentFromEntity T e s) = filter (\<lambda>p. fst p \<noteq> e) (get T s)"
  by (simp add: removeComponentFromEntity_def get_upd_same erase_if_filter matchEntity_def)

lemma lookup_appended:
  assumes "e \<notin> set (map fst xs)" and "get T s = xs @ [(e, c)]"
  shows "pointee T s (getComponentOfEntity T e s) = Some c"
proof -
  have "find_if (matchEntity e) (xs @ [(e, c)]) = length xs"
    using assms(1) by (rule find_if_append_new)
  then show ?thesis
    using assms(2) by (simp add: pointee_def getComponentOfEntity_def Let_def end_of_def)
qed

lemma count_appended:
  assumes "e \<notin> set (map fst xs)"
  shows "length (filter (matchEntity e) (xs @ [(e, c)])) = 1"
proof -
  have "filter (matchEntity e) xs = []"
    using assms by (auto simp: filter_empty_conv matchEntity_def)
  then show ?thesis
    by (simp add: matchEntity_def)
qed

lemma remove_absent:
  assumes "e \<notin> set (map fst (get T s))"
  shows "removeComponentFromEntity T e s = s"
proof -
  have "filter (\<lambda>p. \<not> matchEntity e p) (get T s) = get T s"
    using assms by (auto simp: filter_id_conv matchEntity_def)
  then show ?thesis
    by (simp add: removeComponentFromEntity_def erase_if_filter upd_get_same)
qed

lemma apply_absent:
  "e \<notin> set (map fst (get (ComponentType S) s)) \<Longrightarrow> applySystem S e args s = (args, s)"
  unfolding applySystem_def Let_def end_of_def
  using find_if_match_end [of e "get (ComponentType S) s"] by simp

lemma found_position:
  assumes "e \<in> set (map fst xs)"
  shows "find_if (matchEntity e) xs < length xs"
    and "fst (xs ! find_if (matchEntity e) xs) = e"
proof -
  let ?it = "find_if (matchEntity e) xs"
  have "?it \<noteq> length xs"
    using assms find_if_match_end [of e xs] by simp
  then show lt: "?it < length xs"
    using find_if_le_length [of "matchEntity e" xs] by simp
  then have "matchEntity e (xs ! ?it)"
    by (rule find_if_found)
  then show "fst (xs ! ?it) = e"
    by (simp add: matchEntity_def)
qed

lemma apply_found:
  assumes "e \<in> set (map fst (get (ComponentType S) s))"
  shows "applySystem S e args s =
    call S (find_if (matchEntity e) (get (ComponentType S) s)) args s"
  using found_position(1) [OF assms] by (simp add: applySystem_def Let_def end_of_def)

lemma apply_present:
  assumes "e \<in> set (map fst (get T s))"
  shows "applySystem (componentSystem T f) e args s =
    (args, s(T := (get T s)[find_if (matchEntity e) (get T s) :=
          (e, f (snd (get T s ! find_if (matchEntity e) (get T s))) args)]))"
proof -
  have "e \<in> set (map fst (get (ComponentType (componentSystem T f)) s))"
    using assms by (simp add: componentSystem_def)
  then have "applySystem (componentSystem T f) e args s =
      call (componentSystem T f) (find_if (matchEntity e) (get T s)) args s"
    using apply_found [of e "componentSystem T f" s args] by (simp add: componentSystem_def)
  then show ?thesis
    using found_position(2) [OF assms] by (simp add: componentSystem_def)
qed

lemma find_if_keys:
  "map fst xs = map fst ys \<Longrightarrow> find_if (matchEntity e) xs = find_if (matchEntity e) ys"
proof (induction xs arbitrary: ys)
  case Nil
  then show ?case by simp
next
  case (Cons p xs)
  then obtain q zs where ys: "ys = q # zs"
    by (cases ys) auto
  with Cons.prems have "fst p = fst q" and "map fst xs = map fst zs"
    by simp_all
  then show ?case
    using Cons.IH [of zs] by (simp add: ys matchEntity_def)
qed

lemma keys_update_value:
  assumes "i < length xs"
  shows "map fst (xs[i := (fst (xs ! i), v)]) = map fst xs"
proof -
  have "map fst (xs[i := (fst (xs ! i), v)]) = (map fst xs)[i := fst (xs ! i)]"
    by (simp add: map_update)
  also have "\<dots> = (map fst xs)[i := map fst xs ! i]"
    using assms by simp
  also have "\<dots> = map fst xs"
    by (rule list_update_id)
  finally show ?thesis .
qed

lemma keys_apply:
  "map fst (get T' (snd (applySystem (componentSystem T f) e args s))) = map fst (get T' s)"
proof (cases "e \<in> set (map fst (get T s))")
  case False
  then have "e \<notin> set (map fst (get (ComponentType (componentSystem T f)) s))"
    by (simp add: componentSystem_def)
  then show ?thesis by (simp add: apply_absent)
next
  case True
  note p = apply_present [OF True] and q = found_position [OF True]
  show ?thesis
  proof (cases "T' = T")
    case True
    then show ?thesis
      using keys_update_value [OF q(1), of "f (snd (get T s !
        find_if (matchEntity e) (get T s))) args"]
      by (simp add: p q(2) get_upd_same)
  next
    case False
    then show ?thesis by (simp add: p get_upd_other)
  qed
qed





lemma apply_keeps_distinct:
  assumes "\<forall>T. distinct (map fst (get T s))"
    and "\<And>it a s'. \<forall>T. distinct (map fst (get T s')) \<Longrightarrow>
           \<forall>T. distinct (map fst (get T (snd (call S it a s'))))"
  shows "distinct (map fst (get T (snd (applySystem S e args s))))"
proof (cases "e \<in> set (map fst (get (ComponentType S) s))")
  case True
  then show ?thesis
    using assms(2) [OF assms(1)] by (simp add: apply_found)
next
  case False
  then show ?thesis
    using assms(1) by (simp add: apply_absent)
qed

lemma addAll_fresh:
  "distinct (map fst (get T s @ ps)) \<Longrightarrow> get T (addAll T ps s) = get T s @ ps"
proof (induction ps arbitrary: s)
  case Nil
  then show ?case by (simp add: addAll_def)
next
  case (Cons p ps)
  let ?s1 = "addComponentToEntity T (fst p) (snd p) s"
  from Cons.prems have "fst p \<notin> set (map fst (get T s))"
    by auto
  then have "?s1 = s(T := get T s @ [(fst p, snd p)])"
    by (rule add_absent)
  then have g1: "get T ?s1 = get T s @ [p]"
    by (simp add: get_upd_same)
  then have "distinct (map fst (get T ?s1 @ ps))"
    using Cons.prems by simp
  then have "get T (addAll T ps ?s1) = get T ?s1 @ ps"
    by (rule Cons.IH)
  then show ?case
    by (simp add: addAll_def g1)
qed

lemma lookup_after_write:
  assumes "e \<in> set (map fst (get T s))"
  shows "pointee T (s(T := (get T s)[find_if (matchEntity e) (get T s) := (e, v)]))
           (getComponentOfEntity T e
             (s(T := (get T s)[find_if (matchEntity e) (get T s) := (e, v)]))) = Some v"
proof -
  let ?xs = "get T s"
  let ?it = "find_if (matchEntity e) ?xs"
  let ?ys = "?xs[?it := (e, v)]"
  note q = found_position [OF assms]
  have "map fst ?ys = map fst ?xs"
    using keys_update_value [OF q(1), of v] by (simp add: q(2))
  then have "find_if (matchEntity e) ?ys = ?it"
    by (rule find_if_keys)
  then show ?thesis
    using q(1) by (simp add: pointee_def getComponentOfEntity_def Let_def end_of_def get_upd_same)
qed

subsection \<open>Rounding\<close>

text \<open>
  Rounding to nearest in IEEE single precision has a relative error of at most \<open>2\<^sup>-\<^sup>2\<^sup>4\<close>
  on the range of the normal numbers. That is all the bound below needs of \<open>rnd\<close>.
\<close>

lemma move_bound:
  fixes rnd :: "real \<Rightarrow> real" and c :: real
  assumes rounding:
    "\<And>v. 1 / 2 ^ 126 \<le> \<bar>v\<bar> \<Longrightarrow> \<bar>v\<bar> \<le> 2 ^ 127 \<Longrightarrow> \<bar>rnd v - v\<bar> \<le> \<bar>v\<bar> / 2 ^ 24"
    and c: "2 \<le> c" "c \<le> 3"
  shows "\<bar>rnd (c + rnd (1 * rnd (16 / 1000))) - (c + 16 / 1000)\<bar> < 1 / 10 ^ 6"
proof -
  let ?d = "rnd (16 / 1000)"
  let ?m = "rnd (1 * ?d)"
  let ?r = "rnd (c + ?m)"
  have small: "(1::real) / 2 ^ 126 \<le> 1 / 1000" and big: "(4::real) \<le> 2 ^ 127"
    by simp_all
  have "\<bar>?d - 16 / 1000\<bar> \<le> \<bar>16 / 1000 :: real\<bar> / 2 ^ 24"
    using small big by (intro rounding) simp_all
  then have d: "\<bar>?d - 16 / 1000\<bar> \<le> 1 / 1000000000"
    by simp
  have d_lo: "1 / 100 \<le> ?d"
    using d by linarith
  have d_hi: "?d \<le> 2 / 100"
    using d by linarith
  have "\<bar>?m - ?d\<bar> \<le> \<bar>?d\<bar> / 2 ^ 24"
    using rounding [of "1 * ?d"] small big d_lo d_hi by simp
  then have m: "\<bar>?m - ?d\<bar> \<le> 2 / 1000000000"
    using d_lo d_hi by simp
  have m_lo: "1 / 200 \<le> ?m"
    using m d_lo by linarith
  have m_hi: "?m \<le> 3 / 100"
    using m d_hi by linarith
  have "\<bar>?r - (c + ?m)\<bar> \<le> \<bar>c + ?m\<bar> / 2 ^ 24"
    using rounding [of "c + ?m"] small big m_lo m_hi c by simp
  then have r: "\<bar>?r - (c + ?m)\<bar> \<le> 2 / 10000000"
    using m_lo m_hi c by simp
  have "\<bar>?r - (c + 16 / 1000)\<bar> < 1 / 1000000"
    using d m r by linarith
  then show ?thesis
    by simp
qed

section \<open>The claims\<close>

text \<open>
  C1. Inserting a component for an entity that has none of this type and then inserting
  again for the same entity: the second call changes nothing, the collection is the old
  one with the single record \<open>(e, c1)\<close> appended, it holds exactly one record for the
  entity, and the lookup returns a pointer to \<open>c1\<close>. The operations have no error
  result: the source functions are \<^verbatim>\<open>noexcept\<close> and return \<^verbatim>\<open>void\<close>.
\<close>

theorem insert_twice_first_wins:
  assumes "\<not> entityHasComponent T e s"
  shows "let s1 = addComponentToEntity T e c1 s;
             s2 = addComponentToEntity T e c2 s1
         in s2 = s1
          \<and> get T s2 = get T s @ [(e, c1)]
          \<and> length (filter (matchEntity e) (get T s2)) = 1
          \<and> pointee T s2 (getComponentOfEntity T e s2) = Some c1"
proof -
  let ?s1 = "addComponentToEntity T e c1 s"
  from assms have absent: "e \<notin> set (map fst (get T s))"
    by (simp add: has_iff_key)
  then have "?s1 = s(T := get T s @ [(e, c1)])"
    by (rule add_absent)
  then have g1: "get T ?s1 = get T s @ [(e, c1)]"
    by (simp add: get_upd_same)
  then have "e \<in> set (map fst (get T ?s1))"
    by simp
  then have s2: "addComponentToEntity T e c2 ?s1 = ?s1"
    by (rule add_present)
  have one: "length (filter (matchEntity e) (get T ?s1)) = 1"
    using count_appended [OF absent] by (simp only: g1)
  have look: "pointee T ?s1 (getComponentOfEntity T e ?s1) = Some c1"
    using absent g1 by (rule lookup_appended)
  show ?thesis
    unfolding Let_def using s2 g1 one look by simp
qed

theorem insert_twice_first_wins_witness:
  "\<not> entityHasComponent ''Position'' (1 :: IDType) (initial :: (string, int \<times> int) ecs)
   \<and> get ''Position''
        (addComponentToEntity ''Position'' 1 (2, 3)
          (addComponentToEntity ''Position'' 1 (0, 0) (initial :: (string, int \<times> int) ecs)))
      = [(1, (0, 0))]
   \<and> pointee ''Position''
        (addComponentToEntity ''Position'' 1 (2, 3)
          (addComponentToEntity ''Position'' 1 (0, 0) (initial :: (string, int \<times> int) ecs)))
        (getComponentOfEntity ''Position'' 1
          (addComponentToEntity ''Position'' 1 (2, 3)
            (addComponentToEntity ''Position'' 1 (0, 0) (initial :: (string, int \<times> int) ecs))))
      = Some (0, 0)"
proof -
  have h: "\<not> entityHasComponent ''Position'' (1 :: IDType) (initial :: (string, int \<times> int) ecs)"
    by (simp add: entityHasComponent_def get_def initial_def end_of_def)
  have g: "get ''Position'' (initial :: (string, int \<times> int) ecs) = []"
    by (simp add: get_def initial_def)
  show ?thesis
    using h g insert_twice_first_wins [OF h, of "(0, 0)" "(2, 3)"]
    by (auto simp: Let_def)
qed

text \<open>
  C3. \<^verbatim>\<open>entityHasComponent\<close> is true exactly when \<^verbatim>\<open>getComponentOfEntity\<close> returns
  an optional that holds a pointer.
\<close>

theorem exists_iff_get:
  "entityHasComponent T e s = (getComponentOfEntity T e s \<noteq> None)"
  by (simp add: entityHasComponent_def getComponentOfEntity_def Let_def)


text \<open>
  C4. From any state, \<^verbatim>\<open>addComponentToEntity(e, c1)\<close>, then
  \<^verbatim>\<open>removeComponentFromEntity(e)\<close>, then \<^verbatim>\<open>addComponentToEntity(e, c2)\<close> leaves the
  records of the other entities in their order followed by the record \<open>(e, c2)\<close>: exactly
  one record for the entity, and the lookup points to \<open>c2\<close>.
\<close>

theorem remove_then_insert_replaces:
  "let s3 = addComponentToEntity T e c2
              (removeComponentFromEntity T e (addComponentToEntity T e c1 s))
   in get T s3 = filter (\<lambda>p. fst p \<noteq> e) (get T s) @ [(e, c2)]
    \<and> length (filter (matchEntity e) (get T s3)) = 1
    \<and> pointee T s3 (getComponentOfEntity T e s3) = Some c2"
proof -
  let ?s1 = "addComponentToEntity T e c1 s"
  let ?s2 = "removeComponentFromEntity T e ?s1"
  let ?s3 = "addComponentToEntity T e c2 ?s2"
  let ?rest = "filter (\<lambda>p. fst p \<noteq> e) (get T s)"
  have "get T ?s1 = get T s \<or> get T ?s1 = get T s @ [(e, c1)]"
    by (cases "e \<in> set (map fst (get T s))")
      (simp_all add: add_present add_absent get_upd_same)
  then have g2: "get T ?s2 = ?rest"
    by (auto simp: get_remove)
  have absent: "e \<notin> set (map fst ?rest)"
    by auto
  then have "e \<notin> set (map fst (get T ?s2))"
    by (simp add: g2)
  then have "?s3 = ?s2(T := get T ?s2 @ [(e, c2)])"
    by (rule add_absent)
  then have g3: "get T ?s3 = ?rest @ [(e, c2)]"
    by (simp add: get_upd_same g2)
  have one: "length (filter (matchEntity e) (get T ?s3)) = 1"
    using count_appended [OF absent, of c2] by (simp add: g3)
  have look: "pointee T ?s3 (getComponentOfEntity T e ?s3) = Some c2"
    using absent g3 by (rule lookup_appended)
  show ?thesis
    unfolding Let_def using g3 one look by simp
qed

text \<open>
  C5. For an entity with no record in the collection of a system's component type, and
  any system: \<^verbatim>\<open>removeComponentFromEntity\<close> and \<^verbatim>\<open>applySystem\<close> return the whole
  state (the collections of all types) unchanged, \<^verbatim>\<open>applySystem\<close> leaves the arguments
  as they are (the system is not called), and \<^verbatim>\<open>getComponentOfEntity\<close> returns
  \<^verbatim>\<open>std::nullopt\<close>. None of the three has an error result: they are \<^verbatim>\<open>noexcept\<close>
  and no path of them throws or terminates.
\<close>

theorem absence_is_noop:
  assumes "\<not> entityHasComponent (ComponentType S) e s"
  shows "removeComponentFromEntity (ComponentType S) e s = s
       \<and> applySystem S e args s = (args, s)
       \<and> getComponentOfEntity (ComponentType S) e s = None"
proof -
  from assms have absent: "e \<notin> set (map fst (get (ComponentType S) s))"
    by (simp add: has_iff_key)
  have "getComponentOfEntity (ComponentType S) e s = None"
    using assms by (simp add: entityHasComponent_def getComponentOfEntity_def Let_def)
  then show ?thesis
    using absent by (simp add: remove_absent apply_absent)
qed

theorem absence_is_noop_witness:
  "\<not> entityHasComponent ''Position'' 1
       (addComponentToEntity ''Position'' 2 (5, 5) (initial :: (string, int \<times> int) ecs))
   \<and> removeComponentFromEntity ''Position'' 1
       (addComponentToEntity ''Position'' 2 (5, 5) (initial :: (string, int \<times> int) ecs))
     = addComponentToEntity ''Position'' 2 (5, 5) initial
   \<and> applySystem (componentSystem ''Position'' (\<lambda>p dt. (fst p + dt, snd p + dt))) 1 16
       (addComponentToEntity ''Position'' 2 (5, 5) (initial :: (string, int \<times> int) ecs))
     = (16, addComponentToEntity ''Position'' 2 (5, 5) initial)
   \<and> getComponentOfEntity ''Position'' 1
       (addComponentToEntity ''Position'' 2 (5, 5) (initial :: (string, int \<times> int) ecs))
     = None"
proof -
  let ?S = "componentSystem ''Position'' (\<lambda>p dt. (fst p + dt, snd p + dt))
    :: (string, int \<times> int, int) System"
  let ?s = "addComponentToEntity ''Position'' 2 (5, 5) (initial :: (string, int \<times> int) ecs)"
  have T: "ComponentType ?S = ''Position''"
    by (simp add: componentSystem_def)
  have h: "\<not> entityHasComponent (ComponentType ?S) 1 ?s"
    by (simp add: T entityHasComponent_def addComponentToEntity_def get_def initial_def
        end_of_def matchEntity_def)
  show ?thesis
    using h absence_is_noop [OF h, of 16] by (simp add: T)
qed

text \<open>
  C7. For two distinct component types \<open>T1\<close> and \<open>T2\<close>: \<^verbatim>\<open>addComponentToEntity\<close> on
  \<open>T1\<close> does not change what \<^verbatim>\<open>entityHasComponent\<close> answers on \<open>T2\<close>, for any
  entity; and the collection of \<open>T2\<close> is the same after an insertion, a removal or the
  application of a system that writes only its component, on \<open>T1\<close>.
\<close>

theorem type_isolation:
  assumes "T1 \<noteq> T2"
  shows "entityHasComponent T2 e (addComponentToEntity T1 e c s) = entityHasComponent T2 e s
       \<and> entityHasComponent T2 e' (addComponentToEntity T1 e c s) = entityHasComponent T2 e' s
       \<and> get T2 (addComponentToEntity T1 e c s) = get T2 s
       \<and> get T2 (removeComponentFromEntity T1 e s) = get T2 s
       \<and> get T2 (snd (applySystem (componentSystem T1 f) e args s)) = get T2 s"
proof -
  have a: "get T2 (addComponentToEntity T1 e c s) = get T2 s"
    using assms by (simp add: addComponentToEntity_def Let_def get_def)
  have r: "get T2 (removeComponentFromEntity T1 e s) = get T2 s"
    using assms by (simp add: removeComponentFromEntity_def get_def)
  have y: "get T2 (snd (applySystem (componentSystem T1 f) e args s)) = get T2 s"
    using assms by (simp add: applySystem_def componentSystem_def Let_def get_def)
  show ?thesis
    using a r y by (simp add: entityHasComponent_def)
qed

theorem type_isolation_witness:
  "''Position'' \<noteq> ''Velocity''
   \<and> entityHasComponent ''Position'' 1
       (addComponentToEntity ''Position'' 1 (0, 0) (initial :: (string, int \<times> int) ecs))
   \<and> \<not> entityHasComponent ''Velocity'' 1
       (addComponentToEntity ''Position'' 1 (0, 0) (initial :: (string, int \<times> int) ecs))
   \<and> get ''Velocity''
       (addComponentToEntity ''Position'' 1 (0, 0) (initial :: (string, int \<times> int) ecs)) = []"
proof -
  have h: "''Position'' \<noteq> ''Velocity''"
    by simp
  have v: "\<not> entityHasComponent ''Velocity'' 1 (initial :: (string, int \<times> int) ecs)"
    and g: "get ''Velocity'' (initial :: (string, int \<times> int) ecs) = []"
    by (simp_all add: entityHasComponent_def get_def initial_def end_of_def)
  have p: "entityHasComponent ''Position'' 1
      (addComponentToEntity ''Position'' 1 (0, 0) (initial :: (string, int \<times> int) ecs))"
    by (simp add: entityHasComponent_def addComponentToEntity_def get_def initial_def
        end_of_def matchEntity_def)
  show ?thesis
    using h v g p
      type_isolation [OF h, where e = 1 and e' = 1 and c = "(0, 0)"
        and s = "initial :: (string, int \<times> int) ecs"
        and f = "\<lambda>p dt. (fst p + dt, snd p + dt)" and args = 16]
    by simp
qed

text \<open>
  C8. On a collection that is empty, after \<^verbatim>\<open>addComponentToEntity\<close> for the four
  entities 2, 3, 4 and 5, in any order and with any component values,
  \<^verbatim>\<open>getEntityIDsWithComponentView\<close> yields four identifiers, each of 2, 3, 4, 5 once
  (in the order of the insertions).
\<close>

theorem iteration_complete:
  assumes "get T s = []"
    and "distinct (map fst ps)"
    and "set (map fst ps) = {2, 3, 4, 5}"
  shows "let ids = getEntityIDsWithComponentView T (addAll T ps s)
         in length ids = 4 \<and> set ids = {2, 3, 4, 5} \<and> distinct ids \<and> ids = map fst ps"
proof -
  have "get T (addAll T ps s) = get T s @ ps"
    using assms(1,2) by (simp add: addAll_fresh)
  then have ids: "getEntityIDsWithComponentView T (addAll T ps s) = map fst ps"
    using assms(1) by (simp add: getEntityIDsWithComponentView_def)
  have "length (map fst ps) = card (set (map fst ps))"
    using assms(2) by (simp only: distinct_card)
  also have "\<dots> = card {2, 3, 4, 5 :: IDType}"
    by (simp only: assms(3))
  also have "\<dots> = 4"
    by simp
  finally have "length (map fst ps) = 4" .
  then show ?thesis
    unfolding Let_def ids using assms(2,3) by simp
qed

theorem iteration_complete_witness:
  "get ''Position'' (initial :: (string, int \<times> int) ecs) = []
   \<and> distinct (map fst [(2 :: IDType, (5 :: int, 5 :: int)), (3, (10, 10)), (4, (15, 15)), (5, (20, 20))])
   \<and> set (map fst [(2 :: IDType, (5 :: int, 5 :: int)), (3, (10, 10)), (4, (15, 15)), (5, (20, 20))])
       = {2, 3, 4, 5}
   \<and> getEntityIDsWithComponentView ''Position''
       (addComponentToEntity ''Position'' 5 (20, 20)
         (addComponentToEntity ''Position'' 4 (15, 15)
           (addComponentToEntity ''Position'' 3 (10, 10)
             (addComponentToEntity ''Position'' 2 (5, 5)
               (initial :: (string, int \<times> int) ecs)))))
       = [2, 3, 4, 5]
   \<and> length (getEntityIDsWithComponentView ''Position''
       (addComponentToEntity ''Position'' 5 (20, 20)
         (addComponentToEntity ''Position'' 4 (15, 15)
           (addComponentToEntity ''Position'' 3 (10, 10)
             (addComponentToEntity ''Position'' 2 (5, 5)
               (initial :: (string, int \<times> int) ecs)))))) = 4"
proof -
  let ?ps = "[(2 :: IDType, (5 :: int, 5 :: int)), (3, (10, 10)), (4, (15, 15)), (5, (20, 20))]"
  have h1: "get ''Position'' (initial :: (string, int \<times> int) ecs) = []"
    by (simp add: get_def initial_def)
  have h2: "distinct (map fst ?ps)"
    by simp
  have h3: "set (map fst ?ps) = {2, 3, 4, 5}"
    by simp
  have calls: "addAll ''Position'' ?ps (initial :: (string, int \<times> int) ecs) =
      addComponentToEntity ''Position'' 5 (20, 20)
         (addComponentToEntity ''Position'' 4 (15, 15)
           (addComponentToEntity ''Position'' 3 (10, 10)
             (addComponentToEntity ''Position'' 2 (5, 5) initial)))"
    by (simp add: addAll_def)
  show ?thesis
    using h1 h2 h3 iteration_complete [OF h1 h2 h3]
    by (simp add: Let_def calls)
qed

text \<open>
  C9. After \<^verbatim>\<open>removeComponentFromEntity(e)\<close> the collection is the one before with the
  records of \<open>e\<close> left out: the other records are all there, in the order they had.
\<close>

theorem remove_keeps_order:
  "get T (removeComponentFromEntity T e s) = filter (\<lambda>p. fst p \<noteq> e) (get T s)"
  by (simp add: removeComponentFromEntity_def get_def erase_if_filter matchEntity_def)

text \<open>
  C6. An entity holds \<^verbatim>\<open>Position{2, 3}\<close>. After
  \<^verbatim>\<open>applySystem<MoveSystem>(e, 0.016f)\<close> the lookup returns a pointer to a position
  whose coordinates are within \<open>10\<^sup>-\<^sup>6\<close> of 2.016 and 3.016, and this position stands in
  the record of the entity, where the old one stood. The float arithmetic is any
  rounding with a relative error of at most \<open>2\<^sup>-\<^sup>2\<^sup>4\<close> on the normal range.
\<close>

theorem move_system_within_tolerance:
  fixes rnd :: "real \<Rightarrow> real"
  assumes rounding:
    "\<And>v. 1 / 2 ^ 126 \<le> \<bar>v\<bar> \<Longrightarrow> \<bar>v\<bar> \<le> 2 ^ 127 \<Longrightarrow> \<bar>rnd v - v\<bar> \<le> \<bar>v\<bar> / 2 ^ 24"
    and holds:
    "pointee ''Position'' s (getComponentOfEntity ''Position'' e s) = Some \<lparr>x = 2, y = 3\<rparr>"
  shows "let s' = snd (applySystem (MoveSystem rnd) e (rnd (16 / 1000)) s)
         in \<exists>p. pointee ''Position'' s' (getComponentOfEntity ''Position'' e s') = Some p
              \<and> \<bar>x p - 2016 / 1000\<bar> < 1 / 10 ^ 6
              \<and> \<bar>y p - 3016 / 1000\<bar> < 1 / 10 ^ 6
              \<and> get ''Position'' s' =
                  (get ''Position'' s)[find_if (matchEntity e) (get ''Position'' s) := (e, p)]"
proof -
  let ?T = "''Position''"
  let ?xs = "get ?T s"
  let ?it = "find_if (matchEntity e) ?xs"
  let ?dt = "rnd (16 / 1000)"
  let ?p = "\<lparr>x = rnd (2 + rnd (1 * ?dt)), y = rnd (3 + rnd (1 * ?dt))\<rparr>"
  from holds have found: "?it \<noteq> length ?xs" and old: "snd (?xs ! ?it) = \<lparr>x = 2, y = 3\<rparr>"
    by (simp_all add: pointee_def getComponentOfEntity_def Let_def end_of_def
        split: if_splits)
  from found have present: "e \<in> set (map fst ?xs)"
    using find_if_match_end [of e ?xs] by simp
  have s': "snd (applySystem (MoveSystem rnd) e ?dt s) = s(?T := ?xs[?it := (e, ?p)])"
    unfolding MoveSystem_def by (simp add: apply_present [OF present] old)
  have look: "pointee ?T (s(?T := ?xs[?it := (e, ?p)]))
      (getComponentOfEntity ?T e (s(?T := ?xs[?it := (e, ?p)]))) = Some ?p"
    using present by (rule lookup_after_write)
  have bnd_x: "\<bar>x ?p - 2016 / 1000\<bar> < 1 / 10 ^ 6"
    using move_bound [of rnd 2, OF rounding] by simp
  have bnd_y: "\<bar>y ?p - 3016 / 1000\<bar> < 1 / 10 ^ 6"
    using move_bound [of rnd 3, OF rounding] by simp
  show ?thesis
    unfolding Let_def s' using look bnd_x bnd_y
    by (intro exI [of _ ?p]) (simp add: get_upd_same)
qed

theorem move_system_within_tolerance_witness:
  "(\<forall>v :: real. \<bar>(v + v / 2 ^ 24) - v\<bar> \<le> \<bar>v\<bar> / 2 ^ 24)
   \<and> pointee ''Position''
        (addComponentToEntity ''Position'' 1 \<lparr>x = 2, y = 3\<rparr> initial)
        (getComponentOfEntity ''Position'' 1
          (addComponentToEntity ''Position'' 1 \<lparr>x = 2, y = 3\<rparr> initial))
      = Some \<lparr>x = 2, y = 3\<rparr>
   \<and> (\<exists>p. pointee ''Position''
          (snd (applySystem (MoveSystem (\<lambda>v. v + v / 2 ^ 24)) 1 (16 / 1000 + 16 / 1000 / 2 ^ 24)
            (addComponentToEntity ''Position'' 1 \<lparr>x = 2, y = 3\<rparr> initial)))
          (getComponentOfEntity ''Position'' 1
            (snd (applySystem (MoveSystem (\<lambda>v. v + v / 2 ^ 24)) 1 (16 / 1000 + 16 / 1000 / 2 ^ 24)
              (addComponentToEntity ''Position'' 1 \<lparr>x = 2, y = 3\<rparr> initial))))
          = Some p
        \<and> \<bar>x p - 2016 / 1000\<bar> < 1 / 10 ^ 6
        \<and> \<bar>y p - 3016 / 1000\<bar> < 1 / 10 ^ 6)"
proof -
  let ?rnd = "\<lambda>v :: real. v + v / 2 ^ 24"
  let ?s = "addComponentToEntity ''Position'' 1 \<lparr>x = 2, y = 3\<rparr>
    (initial :: (string, Position) ecs)"
  have h0: "\<forall>v :: real. \<bar>?rnd v - v\<bar> \<le> \<bar>v\<bar> / 2 ^ 24"
    by simp
  then have h1: "\<bar>?rnd v - v\<bar> \<le> \<bar>v\<bar> / 2 ^ 24"
    if "1 / 2 ^ 126 \<le> \<bar>v\<bar>" and "\<bar>v\<bar> \<le> 2 ^ 127" for v :: real
    by blast
  have h2: "pointee ''Position'' ?s (getComponentOfEntity ''Position'' 1 ?s)
      = Some \<lparr>x = 2, y = 3\<rparr>"
    by (simp add: pointee_def getComponentOfEntity_def addComponentToEntity_def get_def
        initial_def end_of_def matchEntity_def)
  have "\<exists>p. pointee ''Position''
          (snd (applySystem (MoveSystem ?rnd) 1 (?rnd (16 / 1000)) ?s))
          (getComponentOfEntity ''Position'' 1
            (snd (applySystem (MoveSystem ?rnd) 1 (?rnd (16 / 1000)) ?s)))
          = Some p
        \<and> \<bar>x p - 2016 / 1000\<bar> < 1 / 10 ^ 6
        \<and> \<bar>y p - 3016 / 1000\<bar> < 1 / 10 ^ 6"
    using move_system_within_tolerance [of ?rnd ?s 1, OF h1 h2]
    unfolding Let_def by blast
  then show ?thesis
    using h0 h2 by simp
qed

text \<open>
  C10. The claim as it stands fails for a system whose call operator does more than
  write its component: \<open>insertingSystem\<close>, applied to the entity 3 that has a
  \<^verbatim>\<open>Position\<close>, adds a record to the collection of another type, or a second record to
  the collection of \<^verbatim>\<open>Position\<close> itself.
\<close>

theorem apply_changes_one_value_counterexample:
  "entityHasComponent ''Position'' 3
     (addComponentToEntity ''Position'' 3 \<lparr>x = 0, y = 0\<rparr> initial)
   \<and> get ''Velocity'' (addComponentToEntity ''Position'' 3 \<lparr>x = 0, y = 0\<rparr> initial) = []
   \<and> get ''Velocity''
       (snd (applySystem (insertingSystem ''Position'' ''Velocity'' 3 \<lparr>x = 1, y = 1\<rparr>)
               3 (16 / 1000 :: real)
               (addComponentToEntity ''Position'' 3 \<lparr>x = 0, y = 0\<rparr> initial)))
     = [(3, \<lparr>x = 1, y = 1\<rparr>)]
   \<and> length (get ''Position''
       (addComponentToEntity ''Position'' 3 \<lparr>x = 0, y = 0\<rparr> initial)) = 1
   \<and> length (get ''Position''
       (snd (applySystem (insertingSystem ''Position'' ''Position'' 4 \<lparr>x = 7, y = 7\<rparr>)
               3 (16 / 1000 :: real)
               (addComponentToEntity ''Position'' 3 \<lparr>x = 0, y = 0\<rparr> initial)))) = 2"
  by (simp add: entityHasComponent_def applySystem_def insertingSystem_def
      addComponentToEntity_def get_def initial_def end_of_def matchEntity_def Let_def)

text \<open>
  C10, amended. \<^verbatim>\<open>applySystem\<close> for an entity that has the system's component, with a
  system that writes only the component it is handed: the record of the entity is at
  the position \<open>it\<close> that \<^verbatim>\<open>find_if\<close> returns; afterwards the collection has the same
  length and the same entity identifiers in the same order, every record at another
  position is the same, the record at \<open>it\<close> holds what the system's call made of its
  component, the collections of the other component types are the same, and so are
  the arguments.
\<close>

theorem apply_changes_one_value:
  assumes "entityHasComponent T e s"
  shows "let s' = snd (applySystem (componentSystem T f) e args s);
             it = find_if (matchEntity e) (get T s)
         in it < length (get T s)
          \<and> fst (get T s ! it) = e
          \<and> length (get T s') = length (get T s)
          \<and> map fst (get T s') = map fst (get T s)
          \<and> (\<forall>j. j \<noteq> it \<longrightarrow> get T s' ! j = get T s ! j)
          \<and> get T s' ! it = (e, f (snd (get T s ! it)) args)
          \<and> (\<forall>T'. T' \<noteq> T \<longrightarrow> get T' s' = get T' s)
          \<and> fst (applySystem (componentSystem T f) e args s) = args"
proof -
  from assms have present: "e \<in> set (map fst (get T s))"
    by (simp add: has_iff_key)
  note p = apply_present [OF present] and q = found_position [OF present]
  have keys: "map fst (get T (snd (applySystem (componentSystem T f) e args s)))
      = map fst (get T s)"
    by (rule keys_apply)
  show ?thesis
    unfolding Let_def using q keys
    by (simp add: p get_upd_same get_upd_other)
qed

theorem apply_changes_one_value_witness:
  "entityHasComponent ''Position'' 3
     (addComponentToEntity ''Position'' 3 (10, 10)
       (addComponentToEntity ''Position'' 2 (5, 5) (initial :: (string, int \<times> int) ecs)))
   \<and> get ''Position''
       (snd (applySystem (componentSystem ''Position'' (\<lambda>p dt. (fst p + dt, snd p + dt))) 3 16
         (addComponentToEntity ''Position'' 3 (10, 10)
           (addComponentToEntity ''Position'' 2 (5, 5) (initial :: (string, int \<times> int) ecs)))))
       ! 0 = (2, (5, 5))
   \<and> get ''Position''
       (snd (applySystem (componentSystem ''Position'' (\<lambda>p dt. (fst p + dt, snd p + dt))) 3 16
         (addComponentToEntity ''Position'' 3 (10, 10)
           (addComponentToEntity ''Position'' 2 (5, 5) (initial :: (string, int \<times> int) ecs)))))
       ! 1 = (3, (26, 26))
   \<and> length (get ''Position''
       (snd (applySystem (componentSystem ''Position'' (\<lambda>p dt. (fst p + dt, snd p + dt))) 3 16
         (addComponentToEntity ''Position'' 3 (10, 10)
           (addComponentToEntity ''Position'' 2 (5, 5) (initial :: (string, int \<times> int) ecs))))))
       = 2
   \<and> get ''Velocity''
       (snd (applySystem (componentSystem ''Position'' (\<lambda>p dt. (fst p + dt, snd p + dt))) 3 16
         (addComponentToEntity ''Position'' 3 (10, 10)
           (addComponentToEntity ''Position'' 2 (5, 5) (initial :: (string, int \<times> int) ecs)))))
       = []"
proof -
  let ?f = "\<lambda>(p :: int \<times> int) (dt :: int). (fst p + dt, snd p + dt)"
  let ?s = "addComponentToEntity ''Position'' 3 (10, 10)
       (addComponentToEntity ''Position'' 2 (5, 5) (initial :: (string, int \<times> int) ecs))"
  have g: "get ''Position'' ?s = [(2, (5, 5)), (3, (10, 10))]"
    and v: "get ''Velocity'' ?s = []"
    by (simp_all add: addComponentToEntity_def get_def initial_def end_of_def matchEntity_def)
  have h: "entityHasComponent ''Position'' 3 ?s"
    by (simp add: has_iff_key g)
  have "''Velocity'' \<noteq> ''Position''"
    by simp
  then show ?thesis
    using h apply_changes_one_value [OF h, of ?f 16]
    by (simp add: Let_def g v matchEntity_def)
qed

end
